theory Spec2Isabelle
  imports Main "HOL-Library.AList"
begin

section \<open>Python strings\<close>

text \<open>
  The program is Python 2: a \<open>str\<close> is a byte string, modelled as \<^typ>\<open>string\<close>.
  The built-in string operations the program uses are written out here.
\<close>

definition lower_chr :: "char \<Rightarrow> char" where
  \<comment> \<open>\<open>str.lower()\<close> on one byte: the 26 ASCII capitals, every other byte unchanged.\<close>
  "lower_chr c =
     (case map_of (zip ''ABCDEFGHIJKLMNOPQRSTUVWXYZ'' ''abcdefghijklmnopqrstuvwxyz'') c of
        None \<Rightarrow> c
      | Some l \<Rightarrow> l)"

definition lower :: "string \<Rightarrow> string" where
  "lower s = map lower_chr s"

fun split_chr :: "char \<Rightarrow> string \<Rightarrow> string list" where
  \<comment> \<open>\<open>s.split(c)\<close> for a one-character separator: empty fields are kept.\<close>
  "split_chr c [] = [[]]"
| "split_chr c (x # xs) =
     (if x = c then [] # split_chr c xs
      else (case split_chr c xs of
              [] \<Rightarrow> [[x]]
            | w # ws \<Rightarrow> (x # w) # ws))"

definition is_space :: "char \<Rightarrow> bool" where
  \<comment> \<open>The bytes \<open>str.strip()\<close> and \<open>str.split()\<close> treat as whitespace.\<close>
  "is_space c = (c \<in> set [CHR 0x20, CHR 0x09, CHR 0x0A, CHR 0x0B, CHR 0x0C, CHR 0x0D])"

definition strip :: "string \<Rightarrow> string" where
  "strip s = rev (dropWhile is_space (rev (dropWhile is_space s)))"

fun split_ws :: "string \<Rightarrow> string list" where
  \<comment> \<open>\<open>s.split()\<close>: the maximal runs of non-whitespace bytes, in order.\<close>
  "split_ws [] = []"
| "split_ws (x # xs) =
     (if is_space x then split_ws xs
      else (case xs of
              [] \<Rightarrow> [[x]]
            | y # ys \<Rightarrow>
                (if is_space y then [x] # split_ws xs
                 else (case split_ws xs of
                         [] \<Rightarrow> [[x]]
                       | w # ws \<Rightarrow> (x # w) # ws))))"

definition startswith :: "string \<Rightarrow> string \<Rightarrow> bool" where
  "startswith s p = (take (length p) s = p)"

section \<open>Python values, for comparisons across types\<close>

text \<open>
  \<open>list.index(x)\<close> compares \<open>x\<close> with the elements by \<open>==\<close>. In Python a tuple
  and a list are never equal, whatever they hold; the constructors below keep them apart.
\<close>

datatype pyval = PyStr string | PyTuple "pyval list" | PyList "pyval list"

datatype error =
    ParseError    \<comment> \<open>the \<open>ValueError\<close> of \<open>ContentSecurityPolicy(...)\<close>\<close>
  | NotInList     \<comment> \<open>the \<open>ValueError\<close> of \<open>list.index\<close>\<close>
  | AttributeError    \<comment> \<open>a method called on \<open>None\<close>\<close>

fun index :: "pyval list \<Rightarrow> pyval \<Rightarrow> error + nat" where
  "index [] x = Inl NotInList"
| "index (y # ys) x =
     (if y = x then Inr 0
      else (case index ys x of Inl e \<Rightarrow> Inl e | Inr i \<Rightarrow> Inr (Suc i)))"

section \<open>Constants of the parser module\<close>

text \<open>
  Modelled from the spec: the module \<open>csp_parser\<close> (the constants, the class
  \<open>ContentSecurityPolicy\<close> and \<open>csp_match_domains\<close>) is imported by the tests and
  used by the scanner, and is not among the sources. The keyword and directive
  constants are the literals the spec gives.
\<close>

definition SELF :: string where
  \<comment> \<open>Modelled from the spec: a constant of \<open>csp_parser\<close>, which is missing.\<close>
  "SELF = CHR 0x27 # ''self'' @ [CHR 0x27]"

definition NONE :: string where
  \<comment> \<open>Modelled from the spec: a constant of \<open>csp_parser\<close>, which is missing.\<close>
  "NONE = CHR 0x27 # ''none'' @ [CHR 0x27]"

definition UNSAFE_INLINE :: string where
  \<comment> \<open>Modelled from the spec: a constant of \<open>csp_parser\<close>, which is missing.\<close>
  "UNSAFE_INLINE = CHR 0x27 # ''unsafe-inline'' @ [CHR 0x27]"

definition UNSAFE_EVAL :: string where
  \<comment> \<open>Modelled from the spec: a constant of \<open>csp_parser\<close>, which is missing.\<close>
  "UNSAFE_EVAL = CHR 0x27 # ''unsafe-eval'' @ [CHR 0x27]"

definition HTTPS :: string where
  \<comment> \<open>Modelled from the spec: a constant of \<open>csp_parser\<close>, which is missing.\<close>
  "HTTPS = ''https:''"

definition DEFAULT_SRC :: string where
  \<comment> \<open>Modelled from the spec: a constant of \<open>csp_parser\<close>, which is missing.\<close>
  "DEFAULT_SRC = ''default-src''"

definition SCRIPT_SRC :: string where
  \<comment> \<open>Modelled from the spec: a constant of \<open>csp_parser\<close>, which is missing.\<close>
  "SCRIPT_SRC = ''script-src''"

definition STYLE_SRC :: string where
  \<comment> \<open>Modelled from the spec: a constant of \<open>csp_parser\<close>, which is missing.\<close>
  "STYLE_SRC = ''style-src''"

section \<open>The Domain Matcher\<close>

text \<open>
  Modelled from the spec: \<open>csp_match_domains\<close> of \<open>csp_parser\<close> is missing. The
  spec's algorithm (4.2): cut the token at the scheme separator, split the host part at
  the dots, and compare the labels with the bypass domain's labels from the right.
\<close>

fun split_scheme :: "string \<Rightarrow> string option \<times> string" where
  \<comment> \<open>Modelled from the spec: step 1 of the matcher, which is missing.
      \<open>(scheme, hostPart)\<close>, cut at the first \<open>://\<close>; no scheme when there is none.\<close>
  "split_scheme [] = (None, [])"
| "split_scheme (c # cs) =
     (if take 3 (c # cs) = ''://'' then (Some [], drop 3 (c # cs))
      else (case split_scheme cs of
              (None, _) \<Rightarrow> (None, c # cs)
            | (Some sch, host) \<Rightarrow> (Some (c # sch), host)))"

definition hostPart :: "string \<Rightarrow> string" where
  \<comment> \<open>Modelled from the spec: the token without its scheme; the scheme is informational.\<close>
  "hostPart sourceToken = snd (split_scheme sourceToken)"

definition label_matches :: "string \<Rightarrow> string \<Rightarrow> bool" where
  \<comment> \<open>Modelled from the spec: step 3 of the matcher, for one position. A policy label
      \<open>*\<close> matches any one label; any other label matches case-insensitively and exactly.\<close>
  "label_matches a b = (a = ''*'' \<or> lower a = lower b)"

fun compare_rtl :: "string list \<Rightarrow> string list \<Rightarrow> bool" where
  \<comment> \<open>Modelled from the spec: steps 3 and 5 of the matcher. Both lists are reversed:
      from the top-level domain down; a list that ends before the other does not match.\<close>
  "compare_rtl [] [] = True"
| "compare_rtl (a # as) (b # bs) = (label_matches a b \<and> compare_rtl as bs)"
| "compare_rtl _ _ = False"

definition csp_match_domains :: "string \<Rightarrow> string list \<Rightarrow> bool" where
  \<comment> \<open>Modelled from the spec: \<open>csp_match_domains\<close> of \<open>csp_parser\<close>, which is
      missing. The bypass domain is its list of labels, as the spec's contract and the
      scanner's call have it (the tests pass a dotted string).\<close>
  "csp_match_domains sourceToken bypassDomainLabels =
     compare_rtl (rev (split_chr (CHR ''.'') (hostPart sourceToken))) (rev bypassDomainLabels)"

section \<open>The CSP parser\<close>

text \<open>
  Modelled from the spec: the class \<open>ContentSecurityPolicy\<close> of \<open>csp_parser\<close> is
  missing. The policy is the header name and the mapping from directive to source list,
  kept as an association list with one entry per directive (a later clause for the same
  directive overwrites the entry). The recognized directive set and \<open>NO_FALLBACK\<close> are
  parameters of the definitions; the spec names only some of their members.
\<close>

text \<open>Modelled from the spec: the data of a \<open>ContentSecurityPolicy\<close>.\<close>

record policy =
  header_name :: string
  entries :: "(string \<times> string list) list"

definition clauses :: "string \<Rightarrow> string list" where
  \<comment> \<open>Modelled from the spec: steps 1 and 2 of the parser. Split at \<open>;\<close>, trim,
      drop the empty clauses.\<close>
  "clauses headerValue = filter (\<lambda>c. c \<noteq> []) (map strip (split_chr (CHR '';'') headerValue))"

definition directive_name :: "string \<Rightarrow> string" where
  \<comment> \<open>Modelled from the spec: steps 3 and 4 of the parser. The clause up to its first
      whitespace, in lower case.\<close>
  "directive_name c = lower (takeWhile (\<lambda>x. \<not> is_space x) c)"

definition source_tokens :: "string \<Rightarrow> string list" where
  \<comment> \<open>Modelled from the spec: steps 3 and 5 of the parser. The remainder, split at
      whitespace.\<close>
  "source_tokens c = split_ws (dropWhile (\<lambda>x. \<not> is_space x) c)"

fun record_clauses ::
  "string list \<Rightarrow> string list \<Rightarrow> (string \<times> string list) list \<Rightarrow> error + (string \<times> string list) list"
where
  \<comment> \<open>Modelled from the spec: steps 4 and 6 of the parser, clause by clause. The first
      unrecognized directive fails the whole parse.\<close>
  "record_clauses recognized [] m = Inr m"
| "record_clauses recognized (c # cs) m =
     (if directive_name c \<in> set recognized
      then record_clauses recognized cs (AList.update (directive_name c) (source_tokens c) m)
      else Inl ParseError)"

definition ContentSecurityPolicy :: "string list \<Rightarrow> string \<Rightarrow> string \<Rightarrow> error + policy" where
  \<comment> \<open>Modelled from the spec: the constructor \<open>ContentSecurityPolicy(name, value)\<close> of
      \<open>csp_parser\<close>, which is missing; the spec's \<open>parse\<close>.\<close>
  "ContentSecurityPolicy recognized headerName headerValue =
     (case record_clauses recognized (clauses headerValue) [] of
        Inl e \<Rightarrow> Inl e
      | Inr m \<Rightarrow> Inr \<lparr>header_name = headerName, entries = m\<rparr>)"

definition is_deprecated_header :: "policy \<Rightarrow> bool" where
  \<comment> \<open>Modelled from the spec: step 7 of the parser; the method is missing.\<close>
  "is_deprecated_header p =
     (lower (header_name p) \<in> set [''x-content-security-policy'', ''x-webkit-csp''])"

definition hasExplicit :: "policy \<Rightarrow> string \<Rightarrow> bool" where
  \<comment> \<open>Modelled from the spec: the membership test of the query surface;
      \<open>__contains__\<close> is missing.\<close>
  "hasExplicit p d = (map_of (entries p) d \<noteq> None)"

definition effective :: "string list \<Rightarrow> policy \<Rightarrow> string \<Rightarrow> string list" where
  \<comment> \<open>Modelled from the spec: the effective lookup of the query surface;
      \<open>__getitem__\<close> is missing.\<close>
  "effective no_fallback p d =
     (case map_of (entries p) d of
        Some tokens \<Rightarrow> tokens
      | None \<Rightarrow>
          (if d \<in> set no_fallback then []
           else (case map_of (entries p) DEFAULT_SRC of
                   Some tokens \<Rightarrow> tokens
                 | None \<Rightarrow> [])))"

definition iterateExplicit :: "policy \<Rightarrow> (string \<times> string list option) list" where
  \<comment> \<open>Modelled from the spec: the full iteration of the query surface, the explicit
      entries only; \<open>iteritems\<close> is missing.\<close>
  "iterateExplicit p = map (\<lambda>(d, tokens). (d, Some tokens)) (entries p)"

section \<open>The scanner\<close>

text \<open>
  The class \<open>ContentSecurityPolicyScan\<close> of \<open>burp_csp_bypass.py\<close>. What it uses of
  the parser module is an interface, a parameter of every function below: the
  constructor, the three ways the scanner reads a policy (\<open>csp[directive]\<close>,
  \<open>directive in csp\<close>, \<open>csp.iteritems()\<close>), \<open>is_deprecated_header\<close>,
  \<open>csp_match_domains\<close>, and the two tables \<open>NO_FALLBACK\<close> and
  \<open>CSP_KNOWN_BYPASSES\<close>. \<open>csp[directive]\<close> gives a list of source tokens, the
  iteration gives pairs of a directive and its source list or \<open>None\<close>, the catalog
  gives for a directive its list of (domain, payload) tuples. A method name with a
  leading underscore is written without it.
\<close>

record 'csp csp_parser =
  api_construct :: "string \<Rightarrow> string \<Rightarrow> error + 'csp"
  api_getitem :: "'csp \<Rightarrow> string \<Rightarrow> string list"
  api_contains :: "'csp \<Rightarrow> string \<Rightarrow> bool"
  api_iteritems :: "'csp \<Rightarrow> (string \<times> string list option) list"
  api_is_deprecated_header :: "'csp \<Rightarrow> bool"
  api_match_domains :: "string \<Rightarrow> string list \<Rightarrow> bool"
  api_NO_FALLBACK :: "string list"
  api_KNOWN_BYPASSES :: "(string \<times> (string \<times> string) list) list"

text \<open>
  What Burp hands to \<open>doPassiveScan\<close>: the length of the response bytes and the
  headers \<open>httplib\<close> reads from them, in the order \<open>getheaders()\<close> returns them
  (splitting the bytes into headers is the host's side). The URL and the HTTP service of an issue are read from the message, so an
  issue that holds the message holds them.
\<close>

record http_message =
  getUrl :: string
  getResponse_len :: nat
  getheaders :: "(string \<times> string) list"

datatype issue_class =
    DeprecatedHeader
  | UnsafeContentSource
  | WildcardContentSource
  | MissingDirective
  | WeakDefaultSource
  | KnownCSPBypass

record finding =
  issue :: issue_class
  httpMessages :: http_message
  severity :: string
  confidence :: string
  directive :: "string option"
  payload :: "string option"

text \<open>
  The instance variables \<open>__init__\<close> sets and the methods change. The two others,
  \<open>_helpers\<close> (Burp's helper object) and \<open>response\<close> (the \<open>HTTPResponse\<close> of
  the last message), are read by no check and are left out. \<open>init\<close> is the scanner
  as \<open>__init__\<close> leaves it.
\<close>

record scanner =
  burpHttpReqResp :: "http_message option"
  issues :: "finding list"

definition init :: scanner where
  "init = \<lparr>burpHttpReqResp = None, issues = []\<rparr>"

definition CSP_HEADERS :: "string list" where
  "CSP_HEADERS = [''content-security-policy'', ''x-content-security-policy'', ''x-webkit-csp'']"

definition append_issue :: "finding \<Rightarrow> scanner \<Rightarrow> scanner" where
  \<comment> \<open>\<open>self.issues.append(f)\<close>\<close>
  "append_issue f s = s\<lparr>issues := issues s @ [f]\<rparr>"

definition create :: "(http_message \<Rightarrow> finding) \<Rightarrow> scanner \<Rightarrow> error option \<times> scanner" where
  \<comment> \<open>An issue is built and appended. Its first argument is
      \<open>self._getHttpService()\<close>, that is \<open>self._burpHttpReqResp.getHttpService()\<close>:
      on a scanner that holds no message this raises before the issue exists.\<close>
  "create mk s =
     (case burpHttpReqResp s of
        None \<Rightarrow> (Some AttributeError, s)
      | Some httpMessage \<Rightarrow> (None, append_issue (mk httpMessage) s))"

fun for_each ::
  "('a \<Rightarrow> scanner \<Rightarrow> error option \<times> scanner) \<Rightarrow> 'a list \<Rightarrow> scanner \<Rightarrow> error option \<times> scanner"
where
  \<comment> \<open>A \<open>for\<close> loop whose body changes the scanner and may raise; a raise leaves the loop.\<close>
  "for_each body [] s = (None, s)"
| "for_each body (x # xs) s =
     (case body x s of
        (Some e, s') \<Rightarrow> (Some e, s')
      | (None, s') \<Rightarrow> for_each body xs s')"

definition deprecatedHeaderCheck :: "'csp csp_parser \<Rightarrow> 'csp \<Rightarrow> scanner \<Rightarrow> error option \<times> scanner" where
  "deprecatedHeaderCheck api csp s =
     (if api_is_deprecated_header api csp
      then create (\<lambda>httpMessage.
             \<lparr>issue = DeprecatedHeader, httpMessages = httpMessage,
              severity = ''Medium'', confidence = ''Certain'',
              directive = None, payload = None\<rparr>) s
      else (None, s))"

definition unsafeContentSourceCheck :: "'csp csp_parser \<Rightarrow> 'csp \<Rightarrow> scanner \<Rightarrow> error option \<times> scanner" where
  "unsafeContentSourceCheck api csp s =
     for_each (\<lambda>d s.
                 if UNSAFE_EVAL \<in> set (api_getitem api csp d) \<or>
                    UNSAFE_INLINE \<in> set (api_getitem api csp d)
                 then create (\<lambda>httpMessage.
                        \<lparr>issue = UnsafeContentSource, httpMessages = httpMessage,
                         severity = ''High'', confidence = ''Certain'',
                         directive = Some d, payload = None\<rparr>) s
                 else (None, s))
       [SCRIPT_SRC, STYLE_SRC] s"

definition wildcardContentSourceCheck :: "'csp csp_parser \<Rightarrow> 'csp \<Rightarrow> scanner \<Rightarrow> error option \<times> scanner" where
  \<comment> \<open>\<open>"*" in src\<close> is the substring test: the byte \<open>*\<close> occurs in \<open>src\<close>.\<close>
  "wildcardContentSourceCheck api csp s =
     for_each (\<lambda>(d, contentSources) s.
                 case contentSources of
                   None \<Rightarrow> (None, s)
                 | Some srcs \<Rightarrow>
                     if list_ex (\<lambda>src. CHR ''*'' \<in> set src) srcs
                     then create (\<lambda>httpMessage.
                            \<lparr>issue = WildcardContentSource, httpMessages = httpMessage,
                             severity = ''Medium'', confidence = ''Certain'',
                             directive = Some d, payload = None\<rparr>) s
                     else (None, s))
       (api_iteritems api csp) s"

definition insecureContentSourceCheck :: "'csp csp_parser \<Rightarrow> 'csp \<Rightarrow> scanner \<Rightarrow> error option \<times> scanner" where
  \<comment> \<open>\<open>pass\<close>\<close>
  "insecureContentSourceCheck api csp s = (None, s)"

definition missingDirectiveCheck :: "'csp csp_parser \<Rightarrow> 'csp \<Rightarrow> scanner \<Rightarrow> error option \<times> scanner" where
  "missingDirectiveCheck api csp s =
     for_each (\<lambda>d s.
                 if \<not> api_contains api csp d
                 then create (\<lambda>httpMessage.
                        \<lparr>issue = MissingDirective, httpMessages = httpMessage,
                         severity = ''Medium'', confidence = ''Certain'',
                         directive = Some d, payload = None\<rparr>) s
                 else (None, s))
       (api_NO_FALLBACK api) s"

definition weakDefaultSourceCheck :: "'csp csp_parser \<Rightarrow> 'csp \<Rightarrow> scanner \<Rightarrow> error option \<times> scanner" where
  "weakDefaultSourceCheck api csp s =
     (let weak = fold (\<lambda>contentSource weak.
                         if contentSource \<notin> set [SELF, NONE, HTTPS] then True else weak)
                      (api_getitem api csp DEFAULT_SRC) False
      in if weak
         then create (\<lambda>httpMessage.
                \<lparr>issue = WeakDefaultSource, httpMessages = httpMessage,
                 severity = ''Medium'', confidence = ''Certain'',
                 directive = None, payload = None\<rparr>) s
         else (None, s))"

definition createKnownBypassIssue ::
  "string \<Rightarrow> string list \<Rightarrow> string \<Rightarrow> scanner \<Rightarrow> error option \<times> scanner"
where
  \<comment> \<open>The argument \<open>bypassesFound\<close> is not passed on to the issue.\<close>
  "createKnownBypassIssue d bypassesFound pl s =
     create (\<lambda>httpMessage.
       \<lparr>issue = KnownCSPBypass, httpMessages = httpMessage,
        severity = ''Medium'', confidence = ''Certain'',
        directive = Some d, payload = Some pl\<rparr>) s"

definition bypassMatchDomainsToSrc :: "'csp csp_parser \<Rightarrow> string \<Rightarrow> string list \<Rightarrow> string list list" where
  \<comment> \<open>The matches are the split domains: lists of labels.\<close>
  "bypassMatchDomainsToSrc api src bypassDomains =
     filter (\<lambda>bypassDomain. api_match_domains api src bypassDomain)
       (map (split_chr (CHR ''.'')) bypassDomains)"

definition entry_value :: "string \<times> string \<Rightarrow> pyval" where
  \<comment> \<open>A catalog entry as the Python value it is: a tuple of two strings.\<close>
  "entry_value e = PyTuple [PyStr (fst e), PyStr (snd e)]"

definition labels_value :: "string list \<Rightarrow> pyval" where
  \<comment> \<open>What \<open>bypass.split(".")\<close> returns: a list of strings.\<close>
  "labels_value ls = PyList (map PyStr ls)"

fun bypassCheckDirective_found ::
  "string \<Rightarrow> (string \<times> string) list \<Rightarrow> string list list \<Rightarrow> scanner \<Rightarrow> error option \<times> scanner"
where
  \<comment> \<open>\<open>for bypass in foundBypasses\<close>: look the payload up, create the issue.\<close>
  "bypassCheckDirective_found d knownBypasses [] s = (None, s)"
| "bypassCheckDirective_found d knownBypasses (bypass # rest) s =
     (case index (map entry_value knownBypasses) (labels_value bypass) of
        Inl e \<Rightarrow> (Some e, s)
      | Inr i \<Rightarrow>
          (case createKnownBypassIssue d bypass (snd (knownBypasses ! i)) s of
             (Some e, s') \<Rightarrow> (Some e, s')
           | (None, s') \<Rightarrow> bypassCheckDirective_found d knownBypasses rest s'))"

definition only_a_keyword_or_scheme :: "string \<Rightarrow> bool" where
  \<comment> \<open>\<open>src.startswith("'") or src in ["http:", "https:"]\<close>\<close>
  "only_a_keyword_or_scheme src = (startswith src [CHR 0x27] \<or> src \<in> set [''http:'', ''https:''])"

fun bypassCheckDirective_srcs ::
  "'csp csp_parser \<Rightarrow> string \<Rightarrow> (string \<times> string) list \<Rightarrow> string list \<Rightarrow> string list \<Rightarrow> scanner
     \<Rightarrow> error option \<times> scanner"
where
  \<comment> \<open>\<open>for src in csp[directive]\<close>\<close>
  "bypassCheckDirective_srcs api d knownBypasses bypassDomains [] s = (None, s)"
| "bypassCheckDirective_srcs api d knownBypasses bypassDomains (src # srcs) s =
     (if only_a_keyword_or_scheme src
      then bypassCheckDirective_srcs api d knownBypasses bypassDomains srcs s
      else (case bypassCheckDirective_found d knownBypasses
                   (bypassMatchDomainsToSrc api src bypassDomains) s of
              (Some e, s') \<Rightarrow> (Some e, s')
            | (None, s') \<Rightarrow> bypassCheckDirective_srcs api d knownBypasses bypassDomains srcs s'))"

definition bypassCheckDirective ::
  "'csp csp_parser \<Rightarrow> 'csp \<Rightarrow> string \<Rightarrow> (string \<times> string) list \<Rightarrow> scanner \<Rightarrow> error option \<times> scanner"
where
  "bypassCheckDirective api csp d knownBypasses s =
     bypassCheckDirective_srcs api d knownBypasses (map fst knownBypasses)
       (api_getitem api csp d) s"

fun knownBypassCheck_items ::
  "'csp csp_parser \<Rightarrow> 'csp \<Rightarrow> (string \<times> (string \<times> string) list) list \<Rightarrow> scanner
     \<Rightarrow> error option \<times> scanner"
where
  \<comment> \<open>\<open>for directive, knownBypasses in CSP_KNOWN_BYPASSES.iteritems()\<close>\<close>
  "knownBypassCheck_items api csp [] s = (None, s)"
| "knownBypassCheck_items api csp ((d, knownBypasses) # rest) s =
     (case bypassCheckDirective api csp d knownBypasses s of
        (Some e, s') \<Rightarrow> (Some e, s')
      | (None, s') \<Rightarrow> knownBypassCheck_items api csp rest s')"

definition knownBypassCheck :: "'csp csp_parser \<Rightarrow> 'csp \<Rightarrow> scanner \<Rightarrow> error option \<times> scanner" where
  "knownBypassCheck api csp s = knownBypassCheck_items api csp (api_KNOWN_BYPASSES api) s"

definition run_checks :: "'csp csp_parser \<Rightarrow> 'csp \<Rightarrow> scanner \<Rightarrow> error option \<times> scanner" where
  \<comment> \<open>The seven calls of \<open>parseContentSecurityPolicy\<close>, in its order; a check that
      raises ends the method.\<close>
  "run_checks api csp s =
     for_each (\<lambda>check s. check api csp s)
       [deprecatedHeaderCheck, unsafeContentSourceCheck, wildcardContentSourceCheck,
        insecureContentSourceCheck, missingDirectiveCheck, weakDefaultSourceCheck,
        knownBypassCheck] s"

definition parseContentSecurityPolicy ::
  "'csp csp_parser \<Rightarrow> string \<times> string \<Rightarrow> scanner \<Rightarrow> error option \<times> scanner"
where
  \<comment> \<open>No exception is caught: a failing constructor ends the method.\<close>
  "parseContentSecurityPolicy api cspHeader s =
     (case api_construct api (fst cspHeader) (snd cspHeader) of
        Inl e \<Rightarrow> (Some e, s)
      | Inr csp \<Rightarrow> run_checks api csp s)"

fun proccessHttpResponse ::
  "'csp csp_parser \<Rightarrow> (string \<times> string) list \<Rightarrow> scanner \<Rightarrow> error option \<times> scanner"
where
  \<comment> \<open>\<open>for header in self.response.getheaders()\<close>, on the headers \<open>httplib\<close>
      reads from the bytes; an exception leaves the loop.\<close>
  "proccessHttpResponse api [] s = (None, s)"
| "proccessHttpResponse api (header # headers) s =
     (if lower (fst header) \<in> set CSP_HEADERS
      then (case parseContentSecurityPolicy api header s of
              (Some e, s') \<Rightarrow> (Some e, s')
            | (None, s') \<Rightarrow> proccessHttpResponse api headers s')
      else proccessHttpResponse api headers s)"

definition doPassiveScan ::
  "'csp csp_parser \<Rightarrow> http_message \<Rightarrow> scanner \<Rightarrow> (error + finding list) \<times> scanner"
where
  \<comment> \<open>Returns \<open>self.issues\<close>, or raises what the processing raised.\<close>
  "doPassiveScan api httpMessage s =
     (if getResponse_len httpMessage \<noteq> 0
      then (case proccessHttpResponse api (getheaders httpMessage)
                   (s\<lparr>burpHttpReqResp := Some httpMessage\<rparr>) of
              (Some e, s') \<Rightarrow> (Inl e, s')
            | (None, s') \<Rightarrow> (Inr (issues s'), s'))
      else (Inr (issues s), s))"

section \<open>Concrete tables, headers and messages\<close>

text \<open>
  Modelled from the spec: the tables of \<open>csp_parser\<close> and the bypass catalog are
  missing. The lists below hold the names the spec and the tests mention; they are used
  only where a definition is evaluated on a concrete input. The catalog has one entry,
  for the domain of the tests' real-world case, with a placeholder for the payload.
\<close>

definition DIRECTIVES :: "string list" where
  \<comment> \<open>Modelled from the spec: the recognized directive set is missing; these are the
      directive names the spec and the tests mention.\<close>
  "DIRECTIVES =
     [''default-src'', ''script-src'', ''style-src'', ''img-src'', ''connect-src'',
      ''font-src'', ''media-src'', ''object-src'', ''frame-src'', ''child-src'',
      ''base-uri'', ''form-action'', ''frame-ancestors'', ''plugin-types'',
      ''report-uri'', ''sandbox'']"

definition NO_FALLBACK :: "string list" where
  \<comment> \<open>Modelled from the spec: the table is missing; these are the members the spec lists.\<close>
  "NO_FALLBACK =
     [''base-uri'', ''form-action'', ''frame-ancestors'', ''plugin-types'',
      ''report-uri'', ''sandbox'']"

definition CSP_HEADER_NAME :: string where
  "CSP_HEADER_NAME = ''Content-Security-Policy''"

definition CSP_TEST_PARSER_1 :: "string \<times> string" where
  \<comment> \<open>The first test header of \<open>tests.py\<close>.\<close>
  "CSP_TEST_PARSER_1 =
     (CSP_HEADER_NAME,
      ''default-src '' @ SELF @ '' https://cdn.example.net; child-src '' @ NONE @
      ''; object-src '' @ NONE)"

definition CSP_TEST_INVALID_TYPES :: "string \<times> string" where
  "CSP_TEST_INVALID_TYPES =
     (CSP_HEADER_NAME,
      ''default-src '' @ SELF @ '' https://cdn.example.net; foobar-src '' @ NONE @ '';'')"

definition parsed_test_1 :: policy where
  \<comment> \<open>What the parser gives for \<open>CSP_TEST_PARSER_1\<close>; see \<open>parse_test_1\<close> below.\<close>
  "parsed_test_1 =
     \<lparr>header_name = CSP_HEADER_NAME,
      entries = [(''default-src'', [SELF, ''https://cdn.example.net'']),
                 (''child-src'', [NONE]),
                 (''object-src'', [NONE])]\<rparr>"

definition CSP_KNOWN_BYPASSES :: "(string \<times> (string \<times> string) list) list" where
  \<comment> \<open>Modelled from the spec: the catalog is missing; one (domain, payload) entry for
      \<open>script-src\<close>.\<close>
  "CSP_KNOWN_BYPASSES = [(SCRIPT_SRC, [(''ajax.googleapis.com'', ''payload'')])]"

definition spec_parser ::
  "string list \<Rightarrow> string list \<Rightarrow> (string \<times> (string \<times> string) list) list \<Rightarrow> policy csp_parser"
where
  \<comment> \<open>Modelled from the spec: the parser interface, filled with the definitions above.\<close>
  "spec_parser recognized no_fallback known =
     \<lparr>api_construct = ContentSecurityPolicy recognized,
      api_getitem = effective no_fallback,
      api_contains = hasExplicit,
      api_iteritems = iterateExplicit,
      api_is_deprecated_header = is_deprecated_header,
      api_match_domains = csp_match_domains,
      api_NO_FALLBACK = no_fallback,
      api_KNOWN_BYPASSES = known\<rparr>"

definition csp_parser_module :: "policy csp_parser" where
  "csp_parser_module = spec_parser DIRECTIVES NO_FALLBACK CSP_KNOWN_BYPASSES"

definition response_with :: "(string \<times> string) list \<Rightarrow> http_message" where
  \<comment> \<open>A non-empty response with the given headers.\<close>
  "response_with hs = \<lparr>getUrl = ''http://example.net/'', getResponse_len = 1, getheaders = hs\<rparr>"

definition header_webkit :: "string \<times> string" where
  "header_webkit = (''X-WebKit-CSP'', ''default-src '' @ SELF)"

definition header_googleapis :: "string \<times> string" where
  "header_googleapis = (CSP_HEADER_NAME, ''script-src ajax.googleapis.com'')"

definition header_wildcard_default :: "string \<times> string" where
  "header_wildcard_default = (CSP_HEADER_NAME, ''default-src *; img-src *.example.net '' @ SELF)"

definition header_unsafe_script :: "string \<times> string" where
  "header_unsafe_script = (CSP_HEADER_NAME, ''script-src '' @ SELF @ '' '' @ UNSAFE_EVAL)"

section \<open>Notions used in the statements\<close>

definition severity_as_documented :: "finding \<Rightarrow> bool" where
  \<comment> \<open>Confidence \<open>Certain\<close>; severity \<open>High\<close> for an unsafe content source, \<open>Medium\<close> otherwise.\<close>
  "severity_as_documented f =
     (confidence f = ''Certain'' \<and>
      severity f = (if issue f = UnsafeContentSource then ''High'' else ''Medium''))"

definition has_wildcard :: "string list option \<Rightarrow> bool" where
  \<comment> \<open>The iteration gave a source list, and one of its tokens contains \<open>*\<close>.\<close>
  "has_wildcard contentSources =
     (case contentSources of
        None \<Rightarrow> False
      | Some srcs \<Rightarrow> list_ex (\<lambda>src. CHR ''*'' \<in> set src) srcs)"

definition wildcard_entry :: "(string \<times> string list option) list \<Rightarrow> string \<Rightarrow> bool" where
  \<comment> \<open>The iteration gave the directive, with such a source list.\<close>
  "wildcard_entry items d =
     (case map_of items d of
        None \<Rightarrow> False
      | Some contentSources \<Rightarrow> has_wildcard contentSources)"

definition wildcard_issue :: "http_message \<Rightarrow> string \<Rightarrow> finding" where
  "wildcard_issue b d =
     \<lparr>issue = WildcardContentSource, httpMessages = b,
      severity = ''Medium'', confidence = ''Certain'',
      directive = Some d, payload = None\<rparr>"

definition response_plain :: http_message where
  "response_plain = response_with [(''Content-Type'', ''text/html'')]"

definition parsed_webkit :: policy where
  "parsed_webkit = \<lparr>header_name = ''X-WebKit-CSP'', entries = [(''default-src'', [SELF])]\<rparr>"

definition parsed_googleapis :: policy where
  "parsed_googleapis =
     \<lparr>header_name = CSP_HEADER_NAME, entries = [(''script-src'', [''ajax.googleapis.com''])]\<rparr>"

definition parsed_wildcard_default :: policy where
  "parsed_wildcard_default =
     \<lparr>header_name = CSP_HEADER_NAME,
      entries = [(''default-src'', [''*'']), (''img-src'', [''*.example.net'', SELF])]\<rparr>"

definition parsed_unsafe_script :: policy where
  "parsed_unsafe_script =
     \<lparr>header_name = CSP_HEADER_NAME, entries = [(''script-src'', [SELF, UNSAFE_EVAL])]\<rparr>"

definition wildcard_findings :: "http_message \<Rightarrow> (string \<times> string list option) list \<Rightarrow> finding list" where
  \<comment> \<open>One finding for each pair of the iteration with such a source list, in order.\<close>
  "wildcard_findings b items =
     map (\<lambda>(d, contentSources). wildcard_issue b d)
       (filter (\<lambda>(d, contentSources). has_wildcard contentSources) items)"

text \<open>The two assertions of \<open>test_parser_1\<close> in \<open>tests.py\<close>, for any parser module.\<close>

definition test_parser_1_membership :: "'csp csp_parser \<Rightarrow> bool" where
  "test_parser_1_membership api =
     (case api_construct api (fst CSP_TEST_PARSER_1) (snd CSP_TEST_PARSER_1) of
        Inl e \<Rightarrow> False
      | Inr csp \<Rightarrow> api_contains api csp SCRIPT_SRC)"

definition test_parser_1_lookup :: "'csp csp_parser \<Rightarrow> bool" where
  "test_parser_1_lookup api =
     (case api_construct api (fst CSP_TEST_PARSER_1) (snd CSP_TEST_PARSER_1) of
        Inl e \<Rightarrow> False
      | Inr csp \<Rightarrow> SELF \<in> set (api_getitem api csp SCRIPT_SRC))"

text \<open>A scanner whose list starts with the findings of earlier responses.\<close>

definition prepend :: "finding list \<Rightarrow> scanner \<Rightarrow> scanner" where
  "prepend pre s = s\<lparr>issues := pre @ issues s\<rparr>"

section \<open>Properties of the Domain Matcher\<close>

lemma compare_rtl_list_all2: "compare_rtl xs ys = list_all2 label_matches xs ys"
  by (induction xs ys rule: compare_rtl.induct) simp_all

text \<open>
  Claim C2. \<open>csp_match_domains\<close> holds exactly when, once the optional scheme prefix is
  cut off, the token has as many dot-separated labels as the bypass domain and every
  label pair matches: a token label \<open>*\<close> matches any one label, every other label must
  be equal up to case.
\<close>

theorem csp_match_domains_iff:
  "csp_match_domains sourceToken bypassDomainLabels =
     (length (split_chr (CHR ''.'') (hostPart sourceToken)) = length bypassDomainLabels \<and>
      list_all (\<lambda>(a, b). a = ''*'' \<or> lower a = lower b)
        (zip (split_chr (CHR ''.'') (hostPart sourceToken)) bypassDomainLabels))"
proof -
  let ?ls = "split_chr (CHR ''.'') (hostPart sourceToken)"
  have "csp_match_domains sourceToken bypassDomainLabels = list_all2 label_matches ?ls bypassDomainLabels"
    by (simp add: csp_match_domains_def compare_rtl_list_all2)
  also have "\<dots> = (length ?ls = length bypassDomainLabels \<and>
      list_all (\<lambda>(a, b). a = ''*'' \<or> lower a = lower b) (zip ?ls bypassDomainLabels))"
    by (auto simp: list_all2_iff list_all_iff label_matches_def)
  finally show ?thesis .
qed

text \<open>The six cases the claim and the tests list, each through the theorem.\<close>

theorem csp_match_domains_iff_witness:
  "csp_match_domains ''foo.bar.com'' [''foo'', ''bar'', ''com''] \<and>
   csp_match_domains ''*.bar.com'' [''foo'', ''bar'', ''com''] \<and>
   csp_match_domains ''ws://*.bar.com'' [''foo'', ''bar'', ''com''] \<and>
   \<not> csp_match_domains ''foobar.com'' [''foobar'', ''net''] \<and>
   \<not> csp_match_domains ''foobar.com'' [''foo'', ''bar'', ''com''] \<and>
   \<not> csp_match_domains ''ws://*.foo.com'' [''foo'', ''bar'', ''com'']"
  using csp_match_domains_iff [of "''foo.bar.com''" "[''foo'', ''bar'', ''com'']"]
    csp_match_domains_iff [of "''*.bar.com''" "[''foo'', ''bar'', ''com'']"]
    csp_match_domains_iff [of "''ws://*.bar.com''" "[''foo'', ''bar'', ''com'']"]
    csp_match_domains_iff [of "''foobar.com''" "[''foobar'', ''net'']"]
    csp_match_domains_iff [of "''foobar.com''" "[''foo'', ''bar'', ''com'']"]
    csp_match_domains_iff [of "''ws://*.foo.com''" "[''foo'', ''bar'', ''com'']"]
  by (simp add: hostPart_def lower_def lower_chr_def)

section \<open>Properties of the CSP parser\<close>

lemma record_clauses_fails:
  "(record_clauses recognized cs m = Inl ParseError) =
     list_ex (\<lambda>c. directive_name c \<notin> set recognized) cs"
  by (induction cs arbitrary: m) simp_all

lemma record_clauses_succeeds:
  "(\<exists>m'. record_clauses recognized cs m = Inr m') =
     list_all (\<lambda>c. directive_name c \<in> set recognized) cs"
  by (induction cs arbitrary: m) simp_all

text \<open>
  Claim C7. Constructing a policy fails with the parse error exactly when some clause of
  the header value names a directive outside the recognized set, and yields a policy
  exactly when every clause names a recognized directive: a failed construction
  produces no policy.
\<close>

theorem ContentSecurityPolicy_strict:
  "((ContentSecurityPolicy recognized headerName headerValue = Inl ParseError) =
      list_ex (\<lambda>c. directive_name c \<notin> set recognized) (clauses headerValue)) \<and>
   ((\<exists>p. ContentSecurityPolicy recognized headerName headerValue = Inr p) =
      list_all (\<lambda>c. directive_name c \<in> set recognized) (clauses headerValue))"
proof (intro conjI)
  show "(ContentSecurityPolicy recognized headerName headerValue = Inl ParseError) =
      list_ex (\<lambda>c. directive_name c \<notin> set recognized) (clauses headerValue)"
    using record_clauses_fails [of recognized "clauses headerValue" "[]"]
    by (auto simp: ContentSecurityPolicy_def split: sum.splits)
  show "(\<exists>p. ContentSecurityPolicy recognized headerName headerValue = Inr p) =
      list_all (\<lambda>c. directive_name c \<in> set recognized) (clauses headerValue)"
    using record_clauses_succeeds [of recognized "clauses headerValue" "[]"]
    by (auto simp: ContentSecurityPolicy_def split: sum.splits)
qed

text \<open>
  The header of \<open>test_invalid_types\<close> has the clause \<open>foobar-src 'none'\<close> and fails;
  the header of \<open>test_parser_1\<close> has recognized directives only and parses.
\<close>

theorem ContentSecurityPolicy_strict_witness:
  "ContentSecurityPolicy DIRECTIVES (fst CSP_TEST_INVALID_TYPES) (snd CSP_TEST_INVALID_TYPES)
     = Inl ParseError \<and>
   (\<exists>p. ContentSecurityPolicy DIRECTIVES (fst CSP_TEST_PARSER_1) (snd CSP_TEST_PARSER_1) = Inr p)"
proof -
  have bad: "list_ex (\<lambda>c. directive_name c \<notin> set DIRECTIVES) (clauses (snd CSP_TEST_INVALID_TYPES))"
    by code_simp
  have good: "list_all (\<lambda>c. directive_name c \<in> set DIRECTIVES) (clauses (snd CSP_TEST_PARSER_1))"
    by code_simp
  show ?thesis
    using bad good
      ContentSecurityPolicy_strict [of DIRECTIVES "fst CSP_TEST_INVALID_TYPES" "snd CSP_TEST_INVALID_TYPES"]
      ContentSecurityPolicy_strict [of DIRECTIVES "fst CSP_TEST_PARSER_1" "snd CSP_TEST_PARSER_1"]
    by simp
qed

text \<open>
  Claim C3. The effective lookup of a directive gives the directive's own source list
  when it has an explicit entry; without one it gives the source list of
  \<open>default-src\<close> when the directive is not in \<open>NO_FALLBACK\<close> and \<open>default-src\<close> is
  explicit, and the empty list in every other case. An absent \<open>NO_FALLBACK\<close>
  directive gets the empty list also when \<open>default-src\<close> is explicit, so its result
  differs from every non-empty \<open>default-src\<close> list.
\<close>

theorem effective_lookup:
  "(hasExplicit p d \<longrightarrow> map_of (entries p) d = Some (effective no_fallback p d)) \<and>
   (\<not> hasExplicit p d \<and> d \<notin> set no_fallback \<and> hasExplicit p DEFAULT_SRC \<longrightarrow>
      map_of (entries p) DEFAULT_SRC = Some (effective no_fallback p d)) \<and>
   (\<not> hasExplicit p d \<and> d \<notin> set no_fallback \<and> \<not> hasExplicit p DEFAULT_SRC \<longrightarrow>
      effective no_fallback p d = []) \<and>
   (\<not> hasExplicit p d \<and> d \<in> set no_fallback \<longrightarrow>
      effective no_fallback p d = [] \<and>
      (\<forall>tokens. map_of (entries p) DEFAULT_SRC = Some tokens \<and> tokens \<noteq> [] \<longrightarrow>
         effective no_fallback p d \<noteq> tokens))"
  by (auto simp: hasExplicit_def effective_def split: option.splits)

lemma parse_test_1:
  "ContentSecurityPolicy DIRECTIVES (fst CSP_TEST_PARSER_1) (snd CSP_TEST_PARSER_1) = Inr parsed_test_1"
  by code_simp

text \<open>
  On the policy parsed from the header of \<open>test_parser_1\<close>: \<open>child-src\<close> is explicit,
  \<open>script-src\<close> falls back to \<open>default-src\<close> (the test finds \<open>'self'\<close> there),
  \<open>report-uri\<close> is in \<open>NO_FALLBACK\<close> and stays empty.
\<close>

theorem effective_lookup_witness:
  "effective NO_FALLBACK parsed_test_1 ''child-src'' = [NONE] \<and>
   effective NO_FALLBACK parsed_test_1 SCRIPT_SRC = [SELF, ''https://cdn.example.net''] \<and>
   effective NO_FALLBACK parsed_test_1 ''report-uri'' = [] \<and>
   effective NO_FALLBACK parsed_test_1 ''report-uri'' \<noteq> effective NO_FALLBACK parsed_test_1 DEFAULT_SRC"
proof -
  have e: "hasExplicit parsed_test_1 ''child-src''" "hasExplicit parsed_test_1 DEFAULT_SRC"
    "\<not> hasExplicit parsed_test_1 SCRIPT_SRC" "\<not> hasExplicit parsed_test_1 ''report-uri''"
    "SCRIPT_SRC \<notin> set NO_FALLBACK" "''report-uri'' \<in> set NO_FALLBACK"
    by (simp_all add: hasExplicit_def parsed_test_1_def DEFAULT_SRC_def SCRIPT_SRC_def NO_FALLBACK_def)
  have m: "map_of (entries parsed_test_1) ''child-src'' = Some [NONE]"
    "map_of (entries parsed_test_1) DEFAULT_SRC = Some [SELF, ''https://cdn.example.net'']"
    by (simp_all add: parsed_test_1_def DEFAULT_SRC_def)
  have s: "SELF \<noteq> []" by (simp add: SELF_def)
  show ?thesis
    using e m s
      effective_lookup [of parsed_test_1 "''child-src''" NO_FALLBACK]
      effective_lookup [of parsed_test_1 SCRIPT_SRC NO_FALLBACK]
      effective_lookup [of parsed_test_1 "''report-uri''" NO_FALLBACK]
      effective_lookup [of parsed_test_1 DEFAULT_SRC NO_FALLBACK]
    by auto
qed

section \<open>Properties of the scanner\<close>

subsection \<open>Earlier findings stay in front\<close>

lemma prepend_simps [simp]:
  "burpHttpReqResp (prepend pre s) = burpHttpReqResp s"
  "issues (prepend pre s) = pre @ issues s"
  by (simp_all add: prepend_def)

lemma prepend_burp [simp]:
  "prepend pre (s\<lparr>burpHttpReqResp := b\<rparr>) = (prepend pre s)\<lparr>burpHttpReqResp := b\<rparr>"
  by (simp add: prepend_def)

lemma append_issue_prepend:
  "append_issue f (prepend pre s) = prepend pre (append_issue f s)"
  by (simp add: append_issue_def prepend_def)

lemma create_prepend:
  "create mk (prepend pre s) = apsnd (prepend pre) (create mk s)"
  by (simp add: create_def append_issue_prepend split: option.splits)

lemma for_each_prepend:
  assumes "\<And>x s. x \<in> set xs \<Longrightarrow> body x (prepend pre s) = apsnd (prepend pre) (body x s)"
  shows "for_each body xs (prepend pre s) = apsnd (prepend pre) (for_each body xs s)"
  using assms
proof (induction xs arbitrary: s)
  case Nil
  then show ?case by simp
next
  case (Cons x xs)
  have step: "body x (prepend pre s) = apsnd (prepend pre) (body x s)"
    by (rule Cons.prems) simp
  have rest: "for_each body xs (prepend pre s') = apsnd (prepend pre) (for_each body xs s')" for s'
    by (rule Cons.IH) (simp add: Cons.prems)
  show ?case
    by (cases "body x s") (auto simp: step rest split: option.splits)
qed

lemma deprecatedHeaderCheck_prepend:
  "deprecatedHeaderCheck api csp (prepend pre s) =
     apsnd (prepend pre) (deprecatedHeaderCheck api csp s)"
  by (simp add: deprecatedHeaderCheck_def create_prepend)

lemma unsafeContentSourceCheck_prepend:
  "unsafeContentSourceCheck api csp (prepend pre s) =
     apsnd (prepend pre) (unsafeContentSourceCheck api csp s)"
  unfolding unsafeContentSourceCheck_def
  by (rule for_each_prepend) (simp add: create_prepend)

lemma wildcardContentSourceCheck_prepend:
  "wildcardContentSourceCheck api csp (prepend pre s) =
     apsnd (prepend pre) (wildcardContentSourceCheck api csp s)"
  unfolding wildcardContentSourceCheck_def
  by (rule for_each_prepend) (simp add: create_prepend split: prod.splits option.splits)

lemma missingDirectiveCheck_prepend:
  "missingDirectiveCheck api csp (prepend pre s) =
     apsnd (prepend pre) (missingDirectiveCheck api csp s)"
  unfolding missingDirectiveCheck_def
  by (rule for_each_prepend) (simp add: create_prepend)

lemma weakDefaultSourceCheck_prepend:
  "weakDefaultSourceCheck api csp (prepend pre s) =
     apsnd (prepend pre) (weakDefaultSourceCheck api csp s)"
  by (simp add: weakDefaultSourceCheck_def Let_def create_prepend)

lemma createKnownBypassIssue_prepend:
  "createKnownBypassIssue d b pl (prepend pre s) =
     apsnd (prepend pre) (createKnownBypassIssue d b pl s)"
  by (simp add: createKnownBypassIssue_def create_prepend)

lemma bypassCheckDirective_found_prepend:
  "bypassCheckDirective_found d kb found (prepend pre s) =
     apsnd (prepend pre) (bypassCheckDirective_found d kb found s)"
proof (induction found arbitrary: s)
  case Nil
  then show ?case by simp
next
  case (Cons bypass found)
  show ?case
  proof (cases "index (map entry_value kb) (labels_value bypass)")
    case (Inl e)
    then show ?thesis by simp
  next
    case (Inr i)
    then show ?thesis
      by (cases "createKnownBypassIssue d bypass (snd (kb ! i)) s")
         (auto simp: createKnownBypassIssue_prepend Cons.IH split: option.splits)
  qed
qed

lemma bypassCheckDirective_srcs_prepend:
  "bypassCheckDirective_srcs api d kb doms srcs (prepend pre s) =
     apsnd (prepend pre) (bypassCheckDirective_srcs api d kb doms srcs s)"
  by (induction srcs arbitrary: s)
     (simp_all add: bypassCheckDirective_found_prepend split: prod.splits option.splits)

lemma knownBypassCheck_items_prepend:
  "knownBypassCheck_items api csp items (prepend pre s) =
     apsnd (prepend pre) (knownBypassCheck_items api csp items s)"
  by (induction items arbitrary: s)
     (auto simp: bypassCheckDirective_def bypassCheckDirective_srcs_prepend split: prod.splits option.splits)

lemma run_checks_prepend:
  "run_checks api csp (prepend pre s) = apsnd (prepend pre) (run_checks api csp s)"
  unfolding run_checks_def
  by (rule for_each_prepend)
     (auto simp: knownBypassCheck_def deprecatedHeaderCheck_prepend
      unsafeContentSourceCheck_prepend wildcardContentSourceCheck_prepend
      insecureContentSourceCheck_def missingDirectiveCheck_prepend
      weakDefaultSourceCheck_prepend knownBypassCheck_items_prepend)

lemma parseContentSecurityPolicy_prepend:
  "parseContentSecurityPolicy api h (prepend pre s) =
     apsnd (prepend pre) (parseContentSecurityPolicy api h s)"
  by (simp add: parseContentSecurityPolicy_def run_checks_prepend split: sum.splits)

lemma proccessHttpResponse_prepend:
  "proccessHttpResponse api hs (prepend pre s) =
     apsnd (prepend pre) (proccessHttpResponse api hs s)"
  by (induction hs arbitrary: s)
     (auto simp: parseContentSecurityPolicy_prepend split: prod.splits option.splits)

subsection \<open>Evaluation on the concrete headers\<close>

lemmas module_defs = csp_parser_module_def spec_parser_def effective_def hasExplicit_def
  iterateExplicit_def is_deprecated_header_def NO_FALLBACK_def CSP_KNOWN_BYPASSES_def
  SELF_def NONE_def HTTPS_def UNSAFE_EVAL_def UNSAFE_INLINE_def DEFAULT_SRC_def
  SCRIPT_SRC_def STYLE_SRC_def lower_def lower_chr_def

lemmas rule_defs = run_checks_def deprecatedHeaderCheck_def unsafeContentSourceCheck_def
  wildcardContentSourceCheck_def insecureContentSourceCheck_def missingDirectiveCheck_def
  weakDefaultSourceCheck_def create_def append_issue_def

lemmas bypass_defs = knownBypassCheck_def bypassCheckDirective_def
  only_a_keyword_or_scheme_def startswith_def bypassMatchDomainsToSrc_def

lemma construct_module [simp]:
  "api_construct csp_parser_module = ContentSecurityPolicy DIRECTIVES"
  by (simp add: csp_parser_module_def spec_parser_def)

lemma parse_webkit:
  "ContentSecurityPolicy DIRECTIVES (fst header_webkit) (snd header_webkit) = Inr parsed_webkit"
  by code_simp

lemma parse_googleapis:
  "ContentSecurityPolicy DIRECTIVES (fst header_googleapis) (snd header_googleapis) = Inr parsed_googleapis"
  by code_simp

lemma parse_wildcard_default:
  "ContentSecurityPolicy DIRECTIVES (fst header_wildcard_default) (snd header_wildcard_default)
     = Inr parsed_wildcard_default"
  by code_simp

lemma parse_unsafe_script:
  "ContentSecurityPolicy DIRECTIVES (fst header_unsafe_script) (snd header_unsafe_script)
     = Inr parsed_unsafe_script"
  by code_simp

lemma parse_invalid_types:
  "ContentSecurityPolicy DIRECTIVES (fst CSP_TEST_INVALID_TYPES) (snd CSP_TEST_INVALID_TYPES)
     = Inl ParseError"
  by code_simp

lemma csp_header_names:
  "lower (fst header_webkit) \<in> set CSP_HEADERS"
  "lower (fst header_googleapis) \<in> set CSP_HEADERS"
  "lower (fst header_unsafe_script) \<in> set CSP_HEADERS"
  "lower (fst CSP_TEST_INVALID_TYPES) \<in> set CSP_HEADERS"
  "lower ''Content-Type'' \<notin> set CSP_HEADERS"
  by (simp_all add: header_webkit_def header_googleapis_def header_unsafe_script_def
      CSP_TEST_INVALID_TYPES_def CSP_HEADER_NAME_def CSP_HEADERS_def lower_def lower_chr_def)

lemma run_checks_webkit:
  "fst (run_checks csp_parser_module parsed_webkit (s\<lparr>burpHttpReqResp := Some m\<rparr>)) = None"
  "map issue (issues (snd (run_checks csp_parser_module parsed_webkit (s\<lparr>burpHttpReqResp := Some m\<rparr>)))) =
     map issue (issues s) @
     [DeprecatedHeader, MissingDirective, MissingDirective, MissingDirective,
      MissingDirective, MissingDirective, MissingDirective]"
  by (simp_all add: rule_defs bypass_defs module_defs parsed_webkit_def)

lemma scan_webkit:
  "fst (proccessHttpResponse csp_parser_module [header_webkit] (s\<lparr>burpHttpReqResp := Some m\<rparr>)) = None"
  "issues (snd (proccessHttpResponse csp_parser_module [header_webkit] (s\<lparr>burpHttpReqResp := Some m\<rparr>))) \<noteq> []"
  using run_checks_webkit [where s = s and m = m]
  by (auto simp: csp_header_names parseContentSecurityPolicy_def parse_webkit split: prod.splits option.splits)

lemma scan_plain:
  "doPassiveScan api response_plain init = (Inr [], init\<lparr>burpHttpReqResp := Some response_plain\<rparr>)"
  by (simp add: doPassiveScan_def response_plain_def response_with_def csp_header_names init_def)


subsection \<open>Findings accumulate\<close>

lemma proccessHttpResponse_from_empty:
  "proccessHttpResponse api hs s =
     apsnd (prepend (issues s)) (proccessHttpResponse api hs (s\<lparr>issues := []\<rparr>))"
  using proccessHttpResponse_prepend [of api hs "issues s" "s\<lparr>issues := []\<rparr>"]
  by (simp add: prepend_def)

lemma doPassiveScan_from_init:
  "fst (doPassiveScan api m s) =
     (case fst (doPassiveScan api m init) of
        Inl e \<Rightarrow> Inl e
      | Inr out \<Rightarrow> Inr (issues s @ out))"
  "issues (snd (doPassiveScan api m s)) = issues s @ issues (snd (doPassiveScan api m init))"
proof -
  let ?e = "\<lparr>burpHttpReqResp = Some m, issues = []\<rparr>"
  have c: "s\<lparr>burpHttpReqResp := Some m, issues := []\<rparr> = ?e"
    by (cases s) simp
  have a: "proccessHttpResponse api (getheaders m) (s\<lparr>burpHttpReqResp := Some m\<rparr>) =
      apsnd (prepend (issues s)) (proccessHttpResponse api (getheaders m) ?e)"
    using proccessHttpResponse_from_empty [of api "getheaders m" "s\<lparr>burpHttpReqResp := Some m\<rparr>"]
    by (simp add: c)
  have b: "init\<lparr>burpHttpReqResp := Some m\<rparr> = ?e"
    by (simp add: init_def)
  show "fst (doPassiveScan api m s) =
     (case fst (doPassiveScan api m init) of
        Inl e \<Rightarrow> Inl e
      | Inr out \<Rightarrow> Inr (issues s @ out))"
    by (cases "proccessHttpResponse api (getheaders m) ?e")
       (auto simp: doPassiveScan_def a b init_def split: option.splits)
  show "issues (snd (doPassiveScan api m s)) = issues s @ issues (snd (doPassiveScan api m init))"
    by (cases "proccessHttpResponse api (getheaders m) ?e")
       (auto simp: doPassiveScan_def a b init_def split: option.splits)
qed

text \<open>
  Claim C6, as amended. The scanner keeps one list of findings, created by \<open>__init__\<close>
  and never emptied. What \<open>doPassiveScan\<close> returns for a response is the findings of
  all earlier responses followed by the findings a new scanner returns for this
  response; the findings added for the response do not depend on the earlier ones, and
  an exception is raised for it exactly when a new scanner raises it.
\<close>

theorem doPassiveScan_accumulates:
  "fst (doPassiveScan api m s) =
     (case fst (doPassiveScan api m init) of
        Inl e \<Rightarrow> Inl e
      | Inr out \<Rightarrow> Inr (issues s @ out)) \<and>
   issues (snd (doPassiveScan api m s)) = issues s @ issues (snd (doPassiveScan api m init))"
  by (rule conjI) (rule doPassiveScan_from_init)+

text \<open>
  Claim C6 as stated fails: a response without a CSP header gives no finding when it is
  the first one analysed, and gives the findings of the earlier response when it is
  analysed after a response with the header \<open>X-WebKit-CSP: default-src 'self'\<close>.
\<close>

theorem doPassiveScan_not_stateless:
  "fst (doPassiveScan csp_parser_module response_plain init) = Inr [] \<and>
   fst (doPassiveScan csp_parser_module response_plain
          (snd (doPassiveScan csp_parser_module (response_with [header_webkit]) init))) \<noteq> Inr []"
proof -
  have "issues (snd (doPassiveScan csp_parser_module (response_with [header_webkit]) init)) \<noteq> []"
    using scan_webkit [where s = init and m = "response_with [header_webkit]"]
    by (auto simp: doPassiveScan_def response_with_def split: prod.splits option.splits)
  then show ?thesis
    using doPassiveScan_from_init(1) [of csp_parser_module response_plain
      "snd (doPassiveScan csp_parser_module (response_with [header_webkit]) init)"]
    by (simp add: scan_plain)
qed

subsection \<open>Severity and confidence\<close>

lemma for_each_preserves:
  assumes "\<And>x s. x \<in> set xs \<Longrightarrow> I s \<Longrightarrow> I (snd (body x s))" and "I s"
  shows "I (snd (for_each body xs s))"
  using assms
proof (induction xs arbitrary: s)
  case Nil
  then show ?case by simp
next
  case (Cons x xs)
  obtain r s' where b: "body x s = (r, s')" by (cases "body x s")
  have s': "I s'"
    using Cons.prems(1) [of x s] Cons.prems(2) b by simp
  have "I (snd (for_each body xs s'))"
    by (rule Cons.IH) (simp_all add: Cons.prems(1) s')
  then show ?case
    using b s' by (cases r) simp_all
qed

lemma create_documented:
  "list_all severity_as_documented (issues s) \<Longrightarrow> (\<And>m. severity_as_documented (mk m)) \<Longrightarrow>
     list_all severity_as_documented (issues (snd (create mk s)))"
  by (simp add: create_def append_issue_def split: option.splits)

lemma medium_documented:
  "k \<noteq> UnsafeContentSource \<Longrightarrow>
     severity_as_documented
       \<lparr>issue = k, httpMessages = b, severity = ''Medium'', confidence = ''Certain'',
        directive = d, payload = p\<rparr>"
  by (simp add: severity_as_documented_def)

lemma high_documented:
  "severity_as_documented
     \<lparr>issue = UnsafeContentSource, httpMessages = b, severity = ''High'',
      confidence = ''Certain'', directive = d, payload = p\<rparr>"
  by (simp add: severity_as_documented_def)

lemma deprecatedHeaderCheck_documented:
  "list_all severity_as_documented (issues s) \<Longrightarrow>
     list_all severity_as_documented (issues (snd (deprecatedHeaderCheck api csp s)))"
  by (simp add: deprecatedHeaderCheck_def create_documented medium_documented)

lemma unsafeContentSourceCheck_documented:
  "list_all severity_as_documented (issues s) \<Longrightarrow>
     list_all severity_as_documented (issues (snd (unsafeContentSourceCheck api csp s)))"
  unfolding unsafeContentSourceCheck_def
  by (rule for_each_preserves) (simp_all add: create_documented high_documented)

lemma wildcardContentSourceCheck_documented:
  "list_all severity_as_documented (issues s) \<Longrightarrow>
     list_all severity_as_documented (issues (snd (wildcardContentSourceCheck api csp s)))"
  unfolding wildcardContentSourceCheck_def
  by (rule for_each_preserves)
     (simp_all add: create_documented medium_documented split: prod.splits option.splits)

lemma missingDirectiveCheck_documented:
  "list_all severity_as_documented (issues s) \<Longrightarrow>
     list_all severity_as_documented (issues (snd (missingDirectiveCheck api csp s)))"
  unfolding missingDirectiveCheck_def
  by (rule for_each_preserves) (simp_all add: create_documented medium_documented)

lemma weakDefaultSourceCheck_documented:
  "list_all severity_as_documented (issues s) \<Longrightarrow>
     list_all severity_as_documented (issues (snd (weakDefaultSourceCheck api csp s)))"
  by (simp add: weakDefaultSourceCheck_def Let_def create_documented medium_documented)

lemma createKnownBypassIssue_documented:
  "list_all severity_as_documented (issues s) \<Longrightarrow>
     list_all severity_as_documented (issues (snd (createKnownBypassIssue d b pl s)))"
  by (simp add: createKnownBypassIssue_def create_documented medium_documented)

lemma bypassCheckDirective_found_documented:
  "list_all severity_as_documented (issues s) \<Longrightarrow>
     list_all severity_as_documented (issues (snd (bypassCheckDirective_found d kb found s)))"
proof (induction found arbitrary: s)
  case Nil
  then show ?case by simp
next
  case (Cons bypass found)
  show ?case
  proof (cases "index (map entry_value kb) (labels_value bypass)")
    case (Inl e)
    then show ?thesis using Cons.prems by simp
  next
    case (Inr i)
    obtain r s' where c: "createKnownBypassIssue d bypass (snd (kb ! i)) s = (r, s')"
      by (cases "createKnownBypassIssue d bypass (snd (kb ! i)) s")
    have "list_all severity_as_documented (issues s')"
      using createKnownBypassIssue_documented [OF Cons.prems, of d bypass "snd (kb ! i)"] c by simp
    then show ?thesis
      using Inr c Cons.IH [of s'] by (cases r) simp_all
  qed
qed

lemma bypassCheckDirective_srcs_documented:
  "list_all severity_as_documented (issues s) \<Longrightarrow>
     list_all severity_as_documented (issues (snd (bypassCheckDirective_srcs api d kb doms srcs s)))"
proof (induction srcs arbitrary: s)
  case Nil
  then show ?case by simp
next
  case (Cons src srcs)
  show ?case
  proof (cases "only_a_keyword_or_scheme src")
    case True
    then show ?thesis using Cons by simp
  next
    case False
    obtain r s' where f: "bypassCheckDirective_found d kb (bypassMatchDomainsToSrc api src doms) s = (r, s')"
      by (cases "bypassCheckDirective_found d kb (bypassMatchDomainsToSrc api src doms) s")
    have "list_all severity_as_documented (issues s')"
      using bypassCheckDirective_found_documented [OF Cons.prems, of d kb "bypassMatchDomainsToSrc api src doms"] f
      by simp
    then show ?thesis
      using False f Cons.IH [of s'] by (cases r) simp_all
  qed
qed

lemma knownBypassCheck_items_documented:
  "list_all severity_as_documented (issues s) \<Longrightarrow>
     list_all severity_as_documented (issues (snd (knownBypassCheck_items api csp items s)))"
proof (induction items arbitrary: s)
  case Nil
  then show ?case by simp
next
  case (Cons item items)
  obtain d kb where i: "item = (d, kb)" by (cases item)
  obtain r s' where f: "bypassCheckDirective api csp d kb s = (r, s')"
    by (cases "bypassCheckDirective api csp d kb s")
  have "list_all severity_as_documented (issues s')"
    using bypassCheckDirective_srcs_documented [OF Cons.prems, of api d kb "map fst kb" "api_getitem api csp d"] f
    by (simp add: bypassCheckDirective_def)
  then show ?case
    using i f Cons.IH [of s'] by (cases r) simp_all
qed

lemma run_checks_documented:
  "list_all severity_as_documented (issues s) \<Longrightarrow>
     list_all severity_as_documented (issues (snd (run_checks api csp s)))"
  unfolding run_checks_def
  by (rule for_each_preserves)
     (auto simp: knownBypassCheck_def insecureContentSourceCheck_def
      intro: knownBypassCheck_items_documented weakDefaultSourceCheck_documented
      missingDirectiveCheck_documented wildcardContentSourceCheck_documented
      unsafeContentSourceCheck_documented deprecatedHeaderCheck_documented)

lemma parseContentSecurityPolicy_documented:
  "list_all severity_as_documented (issues s) \<Longrightarrow>
     list_all severity_as_documented (issues (snd (parseContentSecurityPolicy api h s)))"
  by (simp add: parseContentSecurityPolicy_def run_checks_documented split: sum.splits)

lemma proccessHttpResponse_documented:
  "list_all severity_as_documented (issues s) \<Longrightarrow>
     list_all severity_as_documented (issues (snd (proccessHttpResponse api hs s)))"
proof (induction hs arbitrary: s)
  case Nil
  then show ?case by simp
next
  case (Cons h hs)
  show ?case
  proof (cases "lower (fst h) \<in> set CSP_HEADERS")
    case False
    then show ?thesis using Cons by simp
  next
    case True
    obtain r s' where f: "parseContentSecurityPolicy api h s = (r, s')"
      by (cases "parseContentSecurityPolicy api h s")
    have "list_all severity_as_documented (issues s')"
      using parseContentSecurityPolicy_documented [OF Cons.prems, of api h] f by simp
    then show ?thesis
      using True f Cons.IH [of s'] by (cases r) simp_all
  qed
qed

lemma doPassiveScan_init_documented:
  "list_all severity_as_documented (issues (snd (doPassiveScan api m init)))"
proof -
  have "list_all severity_as_documented
      (issues (snd (proccessHttpResponse api (getheaders m) (init\<lparr>burpHttpReqResp := Some m\<rparr>))))"
    by (rule proccessHttpResponse_documented) (simp add: init_def)
  then show ?thesis
    by (auto simp: doPassiveScan_def init_def split: prod.splits option.splits)
qed

text \<open>
  Claim C10. Every finding a call of \<open>doPassiveScan\<close> adds to the list has
  confidence \<open>Certain\<close>, severity \<open>High\<close> when it is an unsafe content source and
  \<open>Medium\<close> when it is of any other kind; so has the finding
  \<open>_createKnownBypassIssue\<close> adds.
\<close>

theorem findings_severity_confidence:
  "list_all severity_as_documented
     (drop (length (issues s)) (issues (snd (doPassiveScan api m s)))) \<and>
   list_all severity_as_documented
     (drop (length (issues s)) (issues (snd (createKnownBypassIssue d bypassesFound pl s))))"
proof
  show "list_all severity_as_documented
     (drop (length (issues s)) (issues (snd (doPassiveScan api m s))))"
    using doPassiveScan_init_documented [of api m] doPassiveScan_from_init(2) [of api m s]
    by simp
  show "list_all severity_as_documented
     (drop (length (issues s)) (issues (snd (createKnownBypassIssue d bypassesFound pl s))))"
    by (simp add: createKnownBypassIssue_def create_def append_issue_def medium_documented
        split: option.splits)
qed

subsection \<open>The weak default source rule\<close>

lemma weak_flag:
  "fold (\<lambda>contentSource weak. if contentSource \<notin> A then True else weak) xs w =
     (w \<or> \<not> list_all (\<lambda>t. t \<in> A) xs)"
  by (induction xs arbitrary: w) auto

text \<open>
  Claim C8. The weak default source rule adds nothing when every token of
  \<open>csp[DEFAULT_SRC]\<close> is one of \<open>'self'\<close>, \<open>'none'\<close> and \<open>https:\<close> (the empty
  list included). Otherwise, on a scanner that holds the message, as it does whenever
  \<open>doPassiveScan\<close> runs the rule, it adds exactly one finding of severity
  \<open>Medium\<close>, however many other tokens there are. On a scanner without a message
  building the finding raises and nothing is added.
\<close>

theorem weakDefaultSourceCheck_once:
  "weakDefaultSourceCheck api csp s =
     (if list_all (\<lambda>token. token \<in> set [SELF, NONE, HTTPS]) (api_getitem api csp DEFAULT_SRC)
      then (None, s)
      else (case burpHttpReqResp s of
              None \<Rightarrow> (Some AttributeError, s)
            | Some httpMessage \<Rightarrow>
                (None,
                 s\<lparr>issues := issues s @
                    [\<lparr>issue = WeakDefaultSource, httpMessages = httpMessage,
                      severity = ''Medium'', confidence = ''Certain'',
                      directive = None, payload = None\<rparr>]\<rparr>)))"
  by (simp add: weakDefaultSourceCheck_def Let_def create_def append_issue_def weak_flag
      del: set_simps split: option.splits)


subsection \<open>The wildcard rule\<close>

lemma wildcard_findings_simps:
  "wildcard_findings b [] = []"
  "wildcard_findings b ((d, v) # items) =
     (if has_wildcard v then wildcard_issue b d # wildcard_findings b items
      else wildcard_findings b items)"
  by (simp_all add: wildcard_findings_def)

lemma wildcard_issue_fields:
  "directive (wildcard_issue b d) = Some d"
  "issue (wildcard_issue b d) = WildcardContentSource"
  by (simp_all add: wildcard_issue_def)

lemma wildcard_for_each:
  "burpHttpReqResp s = Some m \<Longrightarrow>
   for_each (\<lambda>(d, contentSources) s.
                 case contentSources of
                   None \<Rightarrow> (None, s)
                 | Some srcs \<Rightarrow>
                     if list_ex (\<lambda>src. CHR ''*'' \<in> set src) srcs
                     then create (\<lambda>httpMessage.
                            \<lparr>issue = WildcardContentSource, httpMessages = httpMessage,
                             severity = ''Medium'', confidence = ''Certain'',
                             directive = Some d, payload = None\<rparr>) s
                     else (None, s)) items s =
   (None, s\<lparr>issues := issues s @ wildcard_findings m items\<rparr>)"
proof (induction items arbitrary: s)
  case Nil
  then show ?case by (simp add: wildcard_findings_simps)
next
  case (Cons item items)
  obtain d v where i: "item = (d, v)" by (cases item)
  show ?case
  proof (cases "has_wildcard v")
    case False
    then show ?thesis
      using Cons.IH [OF Cons.prems]
      by (cases v) (simp_all add: i wildcard_findings_simps has_wildcard_def)
  next
    case True
    then obtain srcs where v: "v = Some srcs" and w: "list_ex (\<lambda>src. CHR ''*'' \<in> set src) srcs"
      by (cases v) (simp_all add: has_wildcard_def)
    let ?s = "append_issue (wildcard_issue m d) s"
    have b: "burpHttpReqResp ?s = Some m"
      using Cons.prems by (simp add: append_issue_def)
    show ?thesis
      using Cons.IH [OF b] True Cons.prems
      by (simp add: i v w create_def wildcard_findings_simps wildcard_issue_def append_issue_def)
  qed
qed

text \<open>
  On a scanner that holds the message, the wildcard rule ends without an error and adds
  one finding for each pair the iteration yields with a source list in which some token
  contains \<open>*\<close>, in the order of the iteration; a pair with \<open>None\<close> adds nothing.
\<close>

lemma wildcardContentSourceCheck_with_message:
  "burpHttpReqResp s = Some m \<Longrightarrow>
     wildcardContentSourceCheck api csp s =
       (None, s\<lparr>issues := issues s @ wildcard_findings m (api_iteritems api csp)\<rparr>)"
  by (simp add: wildcardContentSourceCheck_def wildcard_for_each)

lemma wildcard_findings_kind:
  "list_all (\<lambda>f. issue f = WildcardContentSource \<and> directive f \<noteq> None) (wildcard_findings b items)"
  by (simp add: wildcard_findings_def list_all_iff wildcard_issue_fields split: prod.splits)

lemma count_absent:
  "d \<notin> fst ` set items \<Longrightarrow>
     filter (\<lambda>f. directive f = Some d) (wildcard_findings b items) = []"
proof (induction items)
  case Nil
  then show ?case by (simp add: wildcard_findings_simps)
next
  case (Cons item items)
  obtain k v where i: "item = (k, v)" by (cases item)
  with Cons show ?case
    by (auto simp: wildcard_findings_simps wildcard_issue_fields)
qed

lemma count_distinct:
  "distinct (map fst items) \<Longrightarrow>
     length (filter (\<lambda>f. directive f = Some d) (wildcard_findings b items)) =
     (if wildcard_entry items d then 1 else 0)"
proof (induction items)
  case Nil
  then show ?case by (simp add: wildcard_entry_def wildcard_findings_simps)
next
  case (Cons item items)
  obtain k v where i: "item = (k, v)" by (cases item)
  from Cons.prems i have k: "k \<notin> fst ` set items" and dist: "distinct (map fst items)"
    by simp_all
  show ?case
  proof (cases "k = d")
    case True
    then show ?thesis
      using count_absent [of d items b] k
      by (simp add: i wildcard_entry_def wildcard_findings_simps wildcard_issue_fields)
  next
    case False
    then show ?thesis
      using Cons.IH [OF dist]
      by (auto simp: i wildcard_entry_def wildcard_findings_simps wildcard_issue_fields
          split: if_splits)
  qed
qed

lemma record_clauses_distinct:
  "distinct (map fst m) \<Longrightarrow> record_clauses recognized cs m = Inr m' \<Longrightarrow> distinct (map fst m')"
proof (induction cs arbitrary: m)
  case Nil
  then show ?case by simp
next
  case (Cons c cs)
  from Cons.prems(2) have r: "directive_name c \<in> set recognized"
    and rest: "record_clauses recognized cs
        (AList.update (directive_name c) (source_tokens c) m) = Inr m'"
    by (simp_all split: if_splits)
  show ?case
    using Cons.IH [OF distinct_update [OF Cons.prems(1)] rest] .
qed

lemma record_clauses_keys:
  "record_clauses recognized cs m = Inr m' \<Longrightarrow>
     fst ` set m' = fst ` set m \<union> directive_name ` set cs"
proof (induction cs arbitrary: m)
  case Nil
  then show ?case by simp
next
  case (Cons c cs)
  from Cons.prems have rest: "record_clauses recognized cs
        (AList.update (directive_name c) (source_tokens c) m) = Inr m'"
    by (simp split: if_splits)
  show ?case
    using Cons.IH [OF rest] by (auto simp: dom_update)
qed

lemma parsed_entries:
  assumes "ContentSecurityPolicy recognized headerName headerValue = Inr p"
  shows "distinct (map fst (entries p))"
    and "hasExplicit p d = list_ex (\<lambda>c. directive_name c = d) (clauses headerValue)"
proof -
  from assms obtain m where m: "record_clauses recognized (clauses headerValue) [] = Inr m"
    and p: "p = \<lparr>header_name = headerName, entries = m\<rparr>"
    by (auto simp: ContentSecurityPolicy_def split: sum.splits)
  show "distinct (map fst (entries p))"
    using record_clauses_distinct [of "[]" recognized "clauses headerValue" m] m p by simp
  have "fst ` set m = directive_name ` set (clauses headerValue)"
    using record_clauses_keys [OF m] by simp
  then show "hasExplicit p d = list_ex (\<lambda>c. directive_name c = d) (clauses headerValue)"
    by (auto simp: hasExplicit_def p map_of_eq_None_iff list_ex_iff)
qed

lemma wildcard_entry_iterateExplicit:
  "wildcard_entry (iterateExplicit p) d =
     (hasExplicit p d \<and> list_ex (\<lambda>src. CHR ''*'' \<in> set src) (effective no_fallback p d))"
proof -
  have "map_of (iterateExplicit p) d = map_option Some (map_of (entries p) d)"
    by (simp add: iterateExplicit_def map_of_map)
  then show ?thesis
    by (cases "map_of (entries p) d")
       (simp_all add: wildcard_entry_def has_wildcard_def hasExplicit_def effective_def)
qed

text \<open>
  Which directives the rule reports depends on what \<open>csp.iteritems()\<close> yields, and
  that method is not among the sources. With the parser and the iteration of the spec
  (the explicit entries only), on a scanner that holds the message, the rule adds one
  finding for directive \<open>d\<close> exactly when the header has a clause for \<open>d\<close> and
  some token of its source list contains \<open>*\<close>, and none for a directive without a
  clause. Under that iteration the \<open>None\<close> branch of the rule is never taken.
\<close>

lemma wildcardContentSourceCheck_explicit_only:
  assumes "ContentSecurityPolicy recognized headerName headerValue = Inr p"
    and "burpHttpReqResp s = Some httpMessage"
  shows
    "fst (wildcardContentSourceCheck (spec_parser recognized no_fallback known) p s) = None \<and>
     hasExplicit p d = list_ex (\<lambda>c. directive_name c = d) (clauses headerValue) \<and>
     length (filter (\<lambda>f. directive f = Some d)
       (drop (length (issues s))
          (issues (snd (wildcardContentSourceCheck (spec_parser recognized no_fallback known) p s))))) =
       (if hasExplicit p d \<and>
           list_ex (\<lambda>src. CHR ''*'' \<in> set src) (effective no_fallback p d)
        then 1 else 0) \<and>
     list_all (\<lambda>f. issue f = WildcardContentSource \<and> directive f \<noteq> None)
       (drop (length (issues s))
          (issues (snd (wildcardContentSourceCheck (spec_parser recognized no_fallback known) p s))))"
proof -
  let ?api = "spec_parser recognized no_fallback known"
  have it: "api_iteritems ?api p = iterateExplicit p"
    by (simp add: spec_parser_def)
  have dist: "distinct (map fst (iterateExplicit p))"
    using parsed_entries(1) [OF assms(1)]
    by (simp add: iterateExplicit_def split_def comp_def)
  have run: "wildcardContentSourceCheck ?api p s =
      (None, s\<lparr>issues := issues s @ wildcard_findings httpMessage (iterateExplicit p)\<rparr>)"
    using wildcardContentSourceCheck_with_message [OF assms(2), of ?api p] by (simp add: it)
  show ?thesis
    using count_distinct [OF dist, of d httpMessage]
      wildcard_findings_kind [of httpMessage "iterateExplicit p"]
      parsed_entries(2) [OF assms(1), of d]
    by (simp add: run wildcard_entry_iterateExplicit [of p d no_fallback])
qed

text \<open>
  On the policy of \<open>default-src *; img-src *.example.net 'self'\<close>, with the message
  set: one finding for \<open>default-src\<close>, one for \<open>img-src\<close>, none for
  \<open>script-src\<close>, whose effective list is the \<open>*\<close> of \<open>default-src\<close>.
\<close>

lemma wildcardContentSourceCheck_explicit_only_example:
  "length (filter (\<lambda>f. directive f = Some ''default-src'')
     (issues (snd (wildcardContentSourceCheck csp_parser_module parsed_wildcard_default
        (init\<lparr>burpHttpReqResp := Some (response_with [header_wildcard_default])\<rparr>))))) = 1 \<and>
   length (filter (\<lambda>f. directive f = Some ''img-src'')
     (issues (snd (wildcardContentSourceCheck csp_parser_module parsed_wildcard_default
        (init\<lparr>burpHttpReqResp := Some (response_with [header_wildcard_default])\<rparr>))))) = 1 \<and>
   length (filter (\<lambda>f. directive f = Some ''script-src'')
     (issues (snd (wildcardContentSourceCheck csp_parser_module parsed_wildcard_default
        (init\<lparr>burpHttpReqResp := Some (response_with [header_wildcard_default])\<rparr>))))) = 0 \<and>
   effective NO_FALLBACK parsed_wildcard_default ''script-src'' = [''*'']"
proof -
  let ?s = "init\<lparr>burpHttpReqResp := Some (response_with [header_wildcard_default])\<rparr>"
  have b: "burpHttpReqResp ?s = Some (response_with [header_wildcard_default])"
    by simp
  have i: "issues ?s = []"
    by (simp add: init_def)
  have h: "hasExplicit parsed_wildcard_default ''default-src''"
    "hasExplicit parsed_wildcard_default ''img-src''"
    "\<not> hasExplicit parsed_wildcard_default ''script-src''"
    by (simp_all add: hasExplicit_def parsed_wildcard_default_def)
  have e: "effective NO_FALLBACK parsed_wildcard_default ''default-src'' = [''*'']"
    "effective NO_FALLBACK parsed_wildcard_default ''img-src'' = [''*.example.net'', SELF]"
    "effective NO_FALLBACK parsed_wildcard_default ''script-src'' = [''*'']"
    by (simp_all add: effective_def parsed_wildcard_default_def NO_FALLBACK_def DEFAULT_SRC_def)
  show ?thesis
    using h e i
      wildcardContentSourceCheck_explicit_only [OF parse_wildcard_default b,
        of NO_FALLBACK CSP_KNOWN_BYPASSES "''default-src''"]
      wildcardContentSourceCheck_explicit_only [OF parse_wildcard_default b,
        of NO_FALLBACK CSP_KNOWN_BYPASSES "''img-src''"]
      wildcardContentSourceCheck_explicit_only [OF parse_wildcard_default b,
        of NO_FALLBACK CSP_KNOWN_BYPASSES "''script-src''"]
    by (simp add: csp_parser_module_def)
qed


subsection \<open>The known bypass rule\<close>

lemma index_entries_labels:
  "index (map entry_value knownBypasses) (labels_value bypass) = Inl NotInList"
  by (induction knownBypasses) (simp_all add: entry_value_def labels_value_def)

lemma bypassCheckDirective_found_raises:
  "bypassCheckDirective_found d knownBypasses found s =
     (if found = [] then None else Some NotInList, s)"
  by (cases found) (simp_all add: index_entries_labels)

lemma bypassCheckDirective_srcs_raises:
  "bypassCheckDirective_srcs api d knownBypasses bypassDomains srcs s =
     (if list_ex (\<lambda>src. \<not> only_a_keyword_or_scheme src \<and>
                        bypassMatchDomainsToSrc api src bypassDomains \<noteq> []) srcs
      then Some NotInList else None, s)"
  by (induction srcs) (simp_all add: bypassCheckDirective_found_raises)

lemma bypassCheckDirective_never_reports:
  "snd (bypassCheckDirective api csp d knownBypasses s) = s"
  "(fst (bypassCheckDirective api csp d knownBypasses s) = Some NotInList) =
     list_ex (\<lambda>src. \<not> only_a_keyword_or_scheme src \<and>
                    list_ex (\<lambda>entry. api_match_domains api src (split_chr (CHR ''.'') (fst entry)))
                      knownBypasses)
       (api_getitem api csp d)"
  by (simp_all add: bypassCheckDirective_def bypassCheckDirective_srcs_raises
      bypassMatchDomainsToSrc_def filter_empty_conv list_ex_iff)

lemma knownBypassCheck_never_reports:
  "snd (knownBypassCheck api csp s) = s"
proof -
  have "snd (knownBypassCheck_items api csp items s) = s" for items
  proof (induction items)
    case Nil
    then show ?case by simp
  next
    case (Cons item items)
    obtain d kb where i: "item = (d, kb)" by (cases item)
    show ?case
      using bypassCheckDirective_never_reports(1) [of api csp d kb s] Cons.IH
      by (cases "bypassCheckDirective api csp d kb s") (auto simp: i split: option.splits)
  qed
  then show ?thesis by (simp add: knownBypassCheck_def)
qed

lemma match_googleapis:
  "csp_match_domains ''ajax.googleapis.com'' (split_chr (CHR ''.'') ''ajax.googleapis.com'')"
  by (simp add: csp_match_domains_def hostPart_def label_matches_def)

lemma getitem_googleapis:
  "api_getitem csp_parser_module parsed_googleapis SCRIPT_SRC = [''ajax.googleapis.com'']"
  by (simp add: csp_parser_module_def spec_parser_def effective_def parsed_googleapis_def SCRIPT_SRC_def)

text \<open>
  Claim C1, at a failing input. The policy of \<open>script-src ajax.googleapis.com\<close> and
  the catalog entry \<open>('ajax.googleapis.com', payload)\<close> for \<open>script-src\<close>: the token
  matches the entry, the claim asks for one finding with the domain and the payload, and
  \<open>_bypassCheckDirective\<close> raises the \<open>ValueError\<close> of \<open>list.index\<close> without
  adding a finding; so does \<open>doPassiveScan\<close>, whose list then holds no known-bypass
  finding.
\<close>

theorem known_bypass_raises:
  "ContentSecurityPolicy DIRECTIVES (fst header_googleapis) (snd header_googleapis)
     = Inr parsed_googleapis \<and>
   bypassCheckDirective csp_parser_module parsed_googleapis SCRIPT_SRC
     [(''ajax.googleapis.com'', ''payload'')] init = (Some NotInList, init) \<and>
   fst (doPassiveScan csp_parser_module (response_with [header_googleapis]) init) = Inl NotInList \<and>
   list_all (\<lambda>f. issue f \<noteq> KnownCSPBypass)
     (issues (snd (doPassiveScan csp_parser_module (response_with [header_googleapis]) init)))"
proof -
  have m: "api_match_domains csp_parser_module = csp_match_domains"
    by (simp add: csp_parser_module_def spec_parser_def)
  have a: "bypassCheckDirective csp_parser_module parsed_googleapis SCRIPT_SRC
     [(''ajax.googleapis.com'', ''payload'')] s = (Some NotInList, s)" for s
    using bypassCheckDirective_never_reports [of csp_parser_module parsed_googleapis SCRIPT_SRC
        "[(''ajax.googleapis.com'', ''payload'')]" s] match_googleapis
    by (cases "bypassCheckDirective csp_parser_module parsed_googleapis SCRIPT_SRC
          [(''ajax.googleapis.com'', ''payload'')] s")
       (simp add: getitem_googleapis m only_a_keyword_or_scheme_def startswith_def)
  let ?s = "init\<lparr>burpHttpReqResp := Some (response_with [header_googleapis])\<rparr>"
  have r: "fst (run_checks csp_parser_module parsed_googleapis ?s) = Some NotInList"
    "map issue (issues (snd (run_checks csp_parser_module parsed_googleapis ?s))) =
       [MissingDirective, MissingDirective, MissingDirective, MissingDirective,
        MissingDirective, MissingDirective]"
    using match_googleapis
    by (simp_all add: rule_defs bypass_defs module_defs parsed_googleapis_def CSP_HEADER_NAME_def
        init_def entry_value_def labels_value_def)
  obtain s' where p: "proccessHttpResponse csp_parser_module [header_googleapis] ?s = (Some NotInList, s')"
    and s': "s' = snd (run_checks csp_parser_module parsed_googleapis ?s)"
    using r(1)
    by (cases "run_checks csp_parser_module parsed_googleapis ?s")
       (simp add: csp_header_names parseContentSecurityPolicy_def parse_googleapis)
  have d: "doPassiveScan csp_parser_module (response_with [header_googleapis]) init = (Inl NotInList, s')"
    using p by (simp add: doPassiveScan_def response_with_def)
  have "map issue (issues s') = [MissingDirective, MissingDirective, MissingDirective,
      MissingDirective, MissingDirective, MissingDirective]"
    using r(2) s' by simp
  then have "list_all (\<lambda>k. k \<noteq> KnownCSPBypass) (map issue (issues s'))"
    by simp
  then have "list_all (\<lambda>f. issue f \<noteq> KnownCSPBypass) (issues s')"
    by (simp add: list_all_iff)
  then show ?thesis
    using a [of init] d by (simp add: parse_googleapis)
qed

subsection \<open>A header that does not parse\<close>

lemma proccessHttpResponse_append:
  "proccessHttpResponse api (before @ rest) s =
     (case proccessHttpResponse api before s of
        (Some e, s') \<Rightarrow> (Some e, s')
      | (None, s') \<Rightarrow> proccessHttpResponse api rest s')"
  by (induction before arbitrary: s) (auto split: prod.splits option.splits)

text \<open>
  Claim C5, as amended. When the constructor fails on a CSP-family header, no rule check
  runs for that header and no finding is recorded for it. The error is not caught: it
  ends the analysis of the response, so the headers after it are not analysed and
  \<open>doPassiveScan\<close> raises the error instead of returning; the findings of the
  headers before it stay in the scanner's list. A later call for another response adds
  the findings of that response as usual.
\<close>

theorem parse_error_ends_the_response:
  assumes "lower (fst h) \<in> set CSP_HEADERS"
    and "api_construct api (fst h) (snd h) = Inl e"
    and "proccessHttpResponse api before (s\<lparr>burpHttpReqResp := Some m\<rparr>) = (None, s')"
    and "getResponse_len m \<noteq> 0"
    and "getheaders m = before @ h # rest"
  shows "parseContentSecurityPolicy api h s' = (Some e, s') \<and>
    proccessHttpResponse api (h # rest) s' = (Some e, s') \<and>
    doPassiveScan api m s = (Inl e, s') \<and>
    issues (snd (doPassiveScan api m2 s')) = issues s' @ issues (snd (doPassiveScan api m2 init))"
proof -
  have a: "parseContentSecurityPolicy api h s' = (Some e, s')"
    using assms(2) by (simp add: parseContentSecurityPolicy_def)
  have b: "proccessHttpResponse api (h # rest) s' = (Some e, s')"
    using assms(1) a by simp
  have c: "doPassiveScan api m s = (Inl e, s')"
    using assms(3,4,5) b by (simp add: doPassiveScan_def proccessHttpResponse_append)
  show ?thesis
    using a b c doPassiveScan_from_init(2) [of api m2 s'] by simp
qed

text \<open>
  A response with the headers \<open>Content-Type\<close>, the header of \<open>test_invalid_types\<close>
  and \<open>X-WebKit-CSP\<close>, in this order.
\<close>

theorem parse_error_ends_the_response_witness:
  "doPassiveScan csp_parser_module
     (response_with [(''Content-Type'', ''text/html''), CSP_TEST_INVALID_TYPES, header_webkit]) init =
     (Inl ParseError,
      init\<lparr>burpHttpReqResp :=
        Some (response_with [(''Content-Type'', ''text/html''), CSP_TEST_INVALID_TYPES, header_webkit])\<rparr>)"
proof -
  let ?m = "response_with [(''Content-Type'', ''text/html''), CSP_TEST_INVALID_TYPES, header_webkit]"
  have 1: "lower (fst CSP_TEST_INVALID_TYPES) \<in> set CSP_HEADERS"
    by (rule csp_header_names)
  have 2: "api_construct csp_parser_module (fst CSP_TEST_INVALID_TYPES) (snd CSP_TEST_INVALID_TYPES)
      = Inl ParseError"
    by (simp add: parse_invalid_types)
  have 3: "proccessHttpResponse csp_parser_module [(''Content-Type'', ''text/html'')]
      (init\<lparr>burpHttpReqResp := Some ?m\<rparr>) = (None, init\<lparr>burpHttpReqResp := Some ?m\<rparr>)"
    by (simp add: csp_header_names)
  have 4: "getResponse_len ?m \<noteq> 0"
    by (simp add: response_with_def)
  have 5: "getheaders ?m = [(''Content-Type'', ''text/html'')] @ CSP_TEST_INVALID_TYPES # [header_webkit]"
    by (simp add: response_with_def)
  show ?thesis
    using parse_error_ends_the_response [OF 1 2 3 4 5] by simp
qed

text \<open>
  Claim C5 as stated fails. When \<open>getheaders()\<close> gives the header of
  \<open>test_invalid_types\<close> and then \<open>X-WebKit-CSP: default-src 'self'\<close>, the second
  header is not analysed: the scan raises and records nothing, while the second header
  alone gives findings. In the other order the scan raises as well, instead of returning
  the findings of the header it analysed.
\<close>

theorem parse_error_skips_later_headers:
  "fst (doPassiveScan csp_parser_module (response_with [CSP_TEST_INVALID_TYPES, header_webkit]) init)
     = Inl ParseError \<and>
   issues (snd (doPassiveScan csp_parser_module
      (response_with [CSP_TEST_INVALID_TYPES, header_webkit]) init)) = [] \<and>
   issues (snd (doPassiveScan csp_parser_module (response_with [header_webkit]) init)) \<noteq> [] \<and>
   fst (doPassiveScan csp_parser_module (response_with [header_webkit, CSP_TEST_INVALID_TYPES]) init)
     = Inl ParseError"
proof -
  have c: "fst (doPassiveScan csp_parser_module
      (response_with [header_webkit, CSP_TEST_INVALID_TYPES]) init) = Inl ParseError"
    using run_checks_webkit(1)
      [where s = init and m = "response_with [header_webkit, CSP_TEST_INVALID_TYPES]"]
    by (auto simp: doPassiveScan_def response_with_def csp_header_names
        parseContentSecurityPolicy_def parse_webkit parse_invalid_types
        split: prod.splits option.splits)
  have a: "doPassiveScan csp_parser_module (response_with [CSP_TEST_INVALID_TYPES, header_webkit]) init
      = (Inl ParseError,
         init\<lparr>burpHttpReqResp := Some (response_with [CSP_TEST_INVALID_TYPES, header_webkit])\<rparr>)"
    by (simp add: doPassiveScan_def response_with_def csp_header_names
        parseContentSecurityPolicy_def parse_invalid_types)
  have b: "issues (snd (doPassiveScan csp_parser_module (response_with [header_webkit]) init)) \<noteq> []"
    using scan_webkit [where s = init and m = "response_with [header_webkit]"]
    by (auto simp: doPassiveScan_def response_with_def split: prod.splits option.splits)
  have i: "issues init = []"
    by (simp add: init_def)
  show ?thesis
    using a b c i by simp
qed

subsection \<open>The assertions of \<open>test_parser_1\<close>\<close>

text \<open>
  The header of \<open>test_parser_1\<close> has no \<open>script-src\<close> clause. With the query
  surface of the spec, the lookup assertion of the test holds (through the fallback to
  \<open>default-src\<close>) and its membership assertion does not.
\<close>

lemma test_parser_1_on_spec_module:
  "test_parser_1_lookup csp_parser_module \<and> \<not> test_parser_1_membership csp_parser_module"
  by (simp add: test_parser_1_lookup_def test_parser_1_membership_def parse_test_1
      csp_parser_module_def spec_parser_def effective_def hasExplicit_def parsed_test_1_def
      NO_FALLBACK_def SCRIPT_SRC_def DEFAULT_SRC_def)

end
